theory Spec2Isabelle
  imports Main "HOL-Library.Word"
begin

unbundle bit_operations_syntax

section \<open>pySim TLV utilities: data model\<close>

text \<open>
  A Python \<^verbatim>\<open>bytes\<close> object is a list of octets. Indexing a \<^verbatim>\<open>bytes\<close> object yields
  an unbounded Python integer (\<open>uint\<close> of the octet), so all arithmetic on tags and
  lengths is carried out on \<open>int\<close>.
\<close>

type_synonym byte = "8 word"

text \<open>The Python exceptions raised in the modelled functions.\<close>

datatype error = IndexError | ValueError | TypeError | KeyError | OverflowError

subsection \<open>Integer to bytes\<close>

text \<open>
  \<^verbatim>\<open>bytes([t])\<close> raises ValueError unless \<open>0 \<le> t < 256\<close>.
\<close>

definition bytes1 :: "int \<Rightarrow> error + byte list" where
  "bytes1 t = (if 0 \<le> t \<and> t < 256 then Inr [word_of_int t] else Inl ValueError)"

text \<open>
  \<^verbatim>\<open>n.to_bytes(k, 'big')\<close>: the \<open>k\<close> big-endian digits of \<open>n\<close> in base 256;
  OverflowError for a negative \<open>n\<close> or for one that does not fit.
\<close>

fun be_digits :: "nat \<Rightarrow> int \<Rightarrow> byte list" where
  "be_digits 0 n = []"
| "be_digits (Suc k) n = be_digits k (n div 256) @ [word_of_int n]"

definition to_bytes :: "int \<Rightarrow> nat \<Rightarrow> error + byte list" where
  "to_bytes n k = (if n < 0 \<or> 256 ^ k \<le> n then Inl OverflowError else Inr (be_digits k n))"

text \<open>\<^verbatim>\<open>prefix + x.to_bytes(...)\<close>: the concatenation is not reached when the conversion raises.\<close>

definition prepend :: "byte list \<Rightarrow> error + byte list \<Rightarrow> error + byte list" where
  "prepend p r = (case r of Inl e \<Rightarrow> Inl e | Inr bs \<Rightarrow> Inr (p @ bs))"

section \<open>COMPREHENSION-TLV tags\<close>

record comprehension_tag =
  comprehension :: bool
  comp_tag :: int

text \<open>
  \<^verbatim>\<open>comprehensiontlv_parse_tag_raw\<close>: the result tag is \<open>None\<close> in the branch written
  for a leading \<open>0xff\<close>.
\<close>

definition comprehensiontlv_parse_tag_raw :: "byte list \<Rightarrow> error + (int option \<times> byte list)" where
  "comprehensiontlv_parse_tag_raw binary =
     (case binary of
        [] \<Rightarrow> Inl IndexError
      | b0 # _ \<Rightarrow>
          if uint b0 \<in> set [0x00, 0x80, 0xff] then Inl ValueError
          else if uint b0 = 0x7f then
            (case drop 1 binary of
               [] \<Rightarrow> Inl IndexError
             | b1 # r1 \<Rightarrow>
                 (case r1 of
                    [] \<Rightarrow> Inl IndexError
                  | b2 # _ \<Rightarrow>
                      Inr (Some (push_bit 16 (uint b0) OR push_bit 8 (uint b1) OR uint b2),
                           drop 3 binary)))
          else if uint b0 = 0xff then Inr (None, binary)
          else Inr (Some (uint b0), drop 1 binary))"

definition comprehensiontlv_parse_tag :: "byte list \<Rightarrow> error + (comprehension_tag \<times> byte list)" where
  "comprehensiontlv_parse_tag binary =
     (case binary of
        [] \<Rightarrow> Inl IndexError
      | b0 # _ \<Rightarrow>
          if uint b0 \<in> set [0x00, 0x80, 0xff] then Inl ValueError
          else if uint b0 = 0x7f then
            (case drop 1 binary of
               [] \<Rightarrow> Inl IndexError
             | b1 # r1 \<Rightarrow>
                 (case r1 of
                    [] \<Rightarrow> Inl IndexError
                  | b2 # _ \<Rightarrow>
                      Inr (\<lparr>comprehension = (uint b1 AND 0x80 \<noteq> 0),
                            comp_tag = push_bit 8 (uint b1 AND 0x7f) OR uint b2\<rparr>,
                           drop 3 binary)))
          else Inr (\<lparr>comprehension = (uint b0 AND 0x80 \<noteq> 0),
                     comp_tag = uint b0 AND 0x7f\<rparr>,
                    drop 1 binary))"

section \<open>BER-TLV length\<close>

text \<open>
  \<^verbatim>\<open>bertlv_parse_len\<close>. The \<^verbatim>\<open>for i in range(1, 1+num_len_oct)\<close> loop reads
  \<^verbatim>\<open>binary[i]\<close>; the length guard before it keeps every index in range.
\<close>

definition bertlv_parse_len :: "byte list \<Rightarrow> error + (int \<times> byte list)" where
  "bertlv_parse_len binary =
     (case binary of
        [] \<Rightarrow> Inl IndexError
      | b0 # _ \<Rightarrow>
          if uint b0 < 0x80 then Inr (uint b0, drop 1 binary)
          else
            let num_len_oct = nat (uint b0 AND 0x7f) in
            if length binary < num_len_oct + 1 then Inr (0, [])
            else Inr (foldl (\<lambda>len i. push_bit 8 len OR uint (binary ! i)) 0 [1 ..< 1 + num_len_oct],
                      drop (1 + num_len_oct) binary))"

definition bertlv_encode_len :: "int \<Rightarrow> error + byte list" where
  "bertlv_encode_len len =
     (if len < 0x80 then to_bytes len 1
      else if len \<le> 0xff then prepend [0x81] (to_bytes len 1)
      else if len \<le> 0xffff then prepend [0x82] (to_bytes len 2)
      else if len \<le> 0xffffff then prepend [0x83] (to_bytes len 3)
      else if len \<le> 0xffffffff then prepend [0x84] (to_bytes len 4)
      else Inl ValueError)"

section \<open>BER-TLV tags\<close>

text \<open>The dict \<^verbatim>\<open>{'class': cls, 'constructed': constructed, 'tag': tag}\<close>.\<close>

record bertlv_tag =
  ber_class :: int
  ber_constructed :: bool
  ber_tag :: int

text \<open>
  The \<^verbatim>\<open>while not last\<close> loop of \<^verbatim>\<open>bertlv_parse_tag\<close>. The second argument is
  \<^verbatim>\<open>binary[i:]\<close>; reading \<^verbatim>\<open>binary[i]\<close> past the end raises IndexError.
\<close>

fun bertlv_parse_tag_loop :: "int \<Rightarrow> byte list \<Rightarrow> error + (int \<times> byte list)" where
  "bertlv_parse_tag_loop tag [] = Inl IndexError"
| "bertlv_parse_tag_loop tag (b # rest) =
     (let tag' = push_bit 7 tag OR (uint b AND 0x7f) in
      if uint b AND 0x80 \<noteq> 0 then bertlv_parse_tag_loop tag' rest else Inr (tag', rest))"

definition bertlv_parse_tag :: "byte list \<Rightarrow> error + (bertlv_tag \<times> byte list)" where
  "bertlv_parse_tag binary =
     (case binary of
        [] \<Rightarrow> Inl IndexError
      | b0 # _ \<Rightarrow>
          let cls = drop_bit 6 (uint b0);
              constructed = (uint b0 AND 0x20 \<noteq> 0);
              tag = uint b0 AND 0x1f
          in if tag \<le> 30 then
               Inr (\<lparr>ber_class = cls, ber_constructed = constructed, ber_tag = tag\<rparr>, drop 1 binary)
             else
               (case bertlv_parse_tag_loop 0 (drop 1 binary) of
                  Inl e \<Rightarrow> Inl e
                | Inr (tag', rest) \<Rightarrow>
                    Inr (\<lparr>ber_class = cls, ber_constructed = constructed, ber_tag = tag'\<rparr>, rest)))"

text \<open>\<^verbatim>\<open>int.bit_length()\<close>: the number of bits of the absolute value.\<close>

fun bit_length_nat :: "nat \<Rightarrow> nat" where
  "bit_length_nat n = (if n = 0 then 0 else Suc (bit_length_nat (n div 2)))"

declare bit_length_nat.simps [simp del]

definition bit_length :: "int \<Rightarrow> nat" where
  "bit_length x = bit_length_nat (nat \<bar>x\<bar>)"

text \<open>
  The inner function \<^verbatim>\<open>get_top7_bits\<close> of \<^verbatim>\<open>bertlv_encode_tag\<close>, with its
  \<^verbatim>\<open>remainder = inp & ~ (inp << (remain_bits - bitcnt))\<close> as written.
\<close>

definition get_top7_bits :: "int \<Rightarrow> int \<times> int" where
  "get_top7_bits inp =
     (let remain_bits = bit_length inp;
          bitcnt = (if remain_bits \<ge> 7 then 7 else remain_bits);
          outp = drop_bit (remain_bits - bitcnt) inp;
          remainder = inp AND NOT (push_bit (remain_bits - bitcnt) inp)
      in (outp, remainder))"

text \<open>
  The \<^verbatim>\<open>while True\<close> loop of \<^verbatim>\<open>bertlv_encode_tag\<close>. It has no bound in the source, so
  the model is a partial function: \<open>None\<close> stands for a loop that never leaves.
\<close>

partial_function (option) bertlv_encode_tag_loop :: "int \<Rightarrow> byte list \<Rightarrow> (error + byte list) option" where
  "bertlv_encode_tag_loop remain tag_bytes =
     (case get_top7_bits remain of
        (t, remain') \<Rightarrow>
          (case bytes1 (if remain' \<noteq> 0 then t OR 0x80 else t) of
             Inl e \<Rightarrow> Some (Inl e)
           | Inr b \<Rightarrow>
               if remain' = 0 then Some (Inr (tag_bytes @ b))
               else bertlv_encode_tag_loop remain' (tag_bytes @ b)))"

declare bertlv_encode_tag_loop.simps [code]

text \<open>\<^verbatim>\<open>bertlv_encode_tag\<close> on the dict representation of a tag.\<close>

definition bertlv_encode_tag :: "bertlv_tag \<Rightarrow> (error + byte list) option" where
  "bertlv_encode_tag t =
     (let tag = ber_tag t; constructed = ber_constructed t; cls = ber_class t in
      if tag \<le> 30 then
        (let t0 = tag AND 0x1f;
             t1 = (if constructed then t0 OR 0x20 else t0);
             t2 = t1 OR push_bit 6 (cls AND 3)
         in Some (bytes1 t2))
      else
        (let t0 = 0x1f;
             t1 = (if constructed then t0 OR 0x20 else t0);
             t2 = t1 OR push_bit 6 (cls AND 3)
         in case bytes1 t2 of
              Inl e \<Rightarrow> Some (Inl e)
            | Inr tag_bytes \<Rightarrow> bertlv_encode_tag_loop tag tag_bytes))"

text \<open>
  The inner function \<^verbatim>\<open>count_int_bytes\<close>: \<^verbatim>\<open>while inp: i += 1; inp = inp >> 8\<close> has no
  bound either (a negative \<open>inp\<close> stays at \<open>-1\<close>).
\<close>

partial_function (option) count_int_bytes_loop :: "int \<Rightarrow> nat \<Rightarrow> nat option" where
  "count_int_bytes_loop inp i =
     (if inp \<noteq> 0 then count_int_bytes_loop (drop_bit 8 inp) (i + 1) else Some i)"

declare count_int_bytes_loop.simps [code]

definition count_int_bytes :: "int \<Rightarrow> nat option" where
  "count_int_bytes inp = count_int_bytes_loop (drop_bit 8 inp) 1"

text \<open>
  \<^verbatim>\<open>bertlv_encode_tag\<close> on the value of a \<^verbatim>\<open>tag\<close> attribute (\<^verbatim>\<open>Optional[int]\<close>): an
  integer is first converted to the dict representation; \<open>None\<close> is not an \<^verbatim>\<open>int\<close>
  and fails at \<^verbatim>\<open>t['tag']\<close>.
\<close>

definition bertlv_encode_tag_int :: "int option \<Rightarrow> (error + byte list) option" where
  "bertlv_encode_tag_int t =
     (case t of
        None \<Rightarrow> Some (Inl TypeError)
      | Some n \<Rightarrow>
          (case count_int_bytes n of
             None \<Rightarrow> None
           | Some tag_size \<Rightarrow>
               (case to_bytes n tag_size of
                  Inl e \<Rightarrow> Some (Inl e)
                | Inr bs \<Rightarrow>
                    (case bertlv_parse_tag bs of
                       Inl e \<Rightarrow> Some (Inl e)
                     | Inr (d, remainder) \<Rightarrow> bertlv_encode_tag d))))"

section \<open>Data objects\<close>

text \<open>
  The attributes of a \<^verbatim>\<open>DataObject\<close> instance. Subclasses add attributes, so the record
  is used through its extensible scheme.
\<close>

record 'v DataObject =
  name :: string
  desc :: "string option"
  tag :: "int option"
  decoded :: "'v option"
  encoded :: "byte list option"

text \<open>
  A method that assigns to attributes of its instance returns the instance as the call
  leaves it, together with its result; the instance is returned in the same way when the
  call raises. The abstract method \<^verbatim>\<open>from_bytes\<close> is a parameter of the functions that
  call it: it receives the instance and the value bytes, and yields the instance and the
  exception, if it raised one. The abstract method \<^verbatim>\<open>to_bytes\<close> is a parameter that
  reads the instance and yields the value bytes.
\<close>

type_synonym ('v, 'z) from_bytes_method =
  "('v, 'z) DataObject_scheme \<Rightarrow> byte list \<Rightarrow> ('v, 'z) DataObject_scheme \<times> error option"

type_synonym ('v, 'z) to_bytes_method =
  "('v, 'z) DataObject_scheme \<Rightarrow> error + byte list"

text \<open>A dict with string keys, in insertion order.\<close>

type_synonym 'v pydict = "(string \<times> 'v option) list"

definition to_dict :: "('v, 'z) DataObject_scheme \<Rightarrow> 'v pydict" where
  "to_dict self = [(name self, decoded self)]"

text \<open>
  \<^verbatim>\<open>from_tlv\<close>. On a tag mismatch the message of the ValueError is built with
  \<^verbatim>\<open>'0x%02x' % self.tag\<close>, which itself raises TypeError when the tag is \<open>None\<close>.
\<close>

definition from_tlv ::
  "('v, 'z) from_bytes_method \<Rightarrow> ('v, 'z) DataObject_scheme \<Rightarrow> byte list \<Rightarrow>
   ('v, 'z) DataObject_scheme \<times> (error + byte list)" where
  "from_tlv from_bytes self do =
     (case do of
        [] \<Rightarrow> (self, Inl IndexError)
      | d0 # _ \<Rightarrow>
          if Some (uint d0) \<noteq> tag self then
            (self, Inl (if tag self = None then TypeError else ValueError))
          else
            (case drop 1 do of
               [] \<Rightarrow> (self, Inl IndexError)
             | d1 # _ \<Rightarrow>
                 let len = nat (uint d1);
                     v = take len (drop 2 do)
                 in (case from_bytes self v of
                       (self', Some e) \<Rightarrow> (self', Inl e)
                     | (self', None) \<Rightarrow> (self', Inr (drop (2 + len) do)))))"

definition to_tlv ::
  "('v, 'z) to_bytes_method \<Rightarrow> ('v, 'z) DataObject_scheme \<Rightarrow> (error + byte list) option" where
  "to_tlv to_bytes_m self =
     (case to_bytes_m self of
        Inl e \<Rightarrow> Some (Inl e)
      | Inr v \<Rightarrow>
          (case bertlv_encode_tag_int (tag self) of
             None \<Rightarrow> None
           | Some (Inl e) \<Rightarrow> Some (Inl e)
           | Some (Inr t) \<Rightarrow>
               (case bertlv_encode_len (int (length v)) of
                  Inl e \<Rightarrow> Some (Inl e)
                | Inr l \<Rightarrow> Some (Inr (t @ l @ v)))))"



text \<open>\<^verbatim>\<open>TL0_DataObject\<close>: tag, length 0 and no value part.\<close>

record 'v TL0_DataObject = "'v DataObject" +
  val :: "'v option"

definition TL0_from_bytes ::
  "('v, 'z) TL0_DataObject_scheme \<Rightarrow> byte list \<Rightarrow>
   ('v, 'z) TL0_DataObject_scheme \<times> error option" where
  "TL0_from_bytes self binary =
     (if length binary \<noteq> 0 then (self, Some ValueError)
      else (self\<lparr>decoded := val self\<rparr>, None))"

definition TL0_to_bytes :: "('v, 'z) TL0_DataObject_scheme \<Rightarrow> error + byte list" where
  "TL0_to_bytes self = Inr []"

section \<open>Collections, choices and sequences of data objects\<close>

text \<open>
  Member objects are shared between the \<^verbatim>\<open>members\<close> list and the two dicts of a
  collection, and \<^verbatim>\<open>from_tlv\<close> assigns to their attributes. Objects therefore live in
  a store and are referred to by address. A method of a collection, choice or sequence
  returns the store as the call leaves it, when it returns and when it raises.
\<close>

type_synonym addr = nat
type_synonym 'o heap = "addr \<Rightarrow> 'o"

record DataObjectCollection =
  coll_name :: "string option"
  coll_desc :: "string option"
  members :: "addr list"
  members_by_tag :: "int option \<rightharpoonup> addr"
  members_by_name :: "string \<rightharpoonup> addr"

text \<open>
  \<^verbatim>\<open>DataObjectCollection.__init__\<close> with \<^verbatim>\<open>members=None\<close> as the default. The field
  \<^verbatim>\<open>members\<close> is \<^verbatim>\<open>members or []\<close>; the two dict comprehensions iterate the argument
  itself, and iterating \<open>None\<close> raises TypeError.
\<close>

definition DataObjectCollection_init ::
  "('v, 'z) DataObject_scheme heap \<Rightarrow> string option \<Rightarrow> string option \<Rightarrow> addr list option \<Rightarrow>
   error + DataObjectCollection" where
  "DataObjectCollection_init h nm ds ms =
     (let members_field = (case ms of None \<Rightarrow> [] | Some l \<Rightarrow> if l = [] then [] else l) in
      case ms of
        None \<Rightarrow> Inl TypeError
      | Some l \<Rightarrow>
          Inr \<lparr>coll_name = nm, coll_desc = ds, members = members_field,
               members_by_tag = foldl (\<lambda>d m. d(tag (h m) \<mapsto> m)) Map.empty l,
               members_by_name = foldl (\<lambda>d m. d(name (h m) \<mapsto> m)) Map.empty l\<rparr>)"

text \<open>\<^verbatim>\<open>DataObjectChoice\<close> inherits the constructor.\<close>

definition DataObjectChoice_init ::
  "('v, 'z) DataObject_scheme heap \<Rightarrow> string option \<Rightarrow> string option \<Rightarrow> addr list option \<Rightarrow>
   error + DataObjectCollection" where
  "DataObjectChoice_init = DataObjectCollection_init"

text \<open>
  The \<^verbatim>\<open>while len(remainder)\<close> loop of \<^verbatim>\<open>DataObjectCollection.decode\<close>. Every pass that
  continues has gone through \<^verbatim>\<open>from_tlv\<close>, which returns a strictly shorter remainder.
\<close>

function DataObjectCollection_decode_loop ::
  "('v, 'z) from_bytes_method \<Rightarrow> ('v, 'z) DataObject_scheme heap \<Rightarrow> DataObjectCollection \<Rightarrow>
   'v pydict list \<Rightarrow> byte list \<Rightarrow>
   ('v, 'z) DataObject_scheme heap \<times> (error + ('v pydict list \<times> byte list))" where
  "DataObjectCollection_decode_loop from_bytes h self res remainder =
     (case remainder of
        [] \<Rightarrow> (h, Inr (res, remainder))
      | t # _ \<Rightarrow>
          if uint t = 0xff then (h, Inr (res, remainder))
          else
            (case members_by_tag self (Some (uint t)) of
               None \<Rightarrow> (h, Inl ValueError)
             | Some obj \<Rightarrow>
                 (case from_tlv from_bytes (h obj) remainder of
                    (obj', Inl e) \<Rightarrow> (h(obj := obj'), Inl e)
                  | (obj', Inr remainder') \<Rightarrow>
                      DataObjectCollection_decode_loop from_bytes (h(obj := obj')) self
                        (res @ [to_dict obj']) remainder')))"
  by pat_completeness auto
termination
  by (relation "measure (\<lambda>(from_bytes, h, self, res, remainder). length remainder)")
     (auto simp add: from_tlv_def Let_def split: if_splits list.splits prod.splits option.splits)

declare DataObjectCollection_decode_loop.simps [simp del]

definition DataObjectCollection_decode ::
  "('v, 'z) from_bytes_method \<Rightarrow> ('v, 'z) DataObject_scheme heap \<Rightarrow> DataObjectCollection \<Rightarrow>
   byte list \<Rightarrow> ('v, 'z) DataObject_scheme heap \<times> (error + ('v pydict list \<times> byte list))" where
  "DataObjectCollection_decode from_bytes h self binary =
     DataObjectCollection_decode_loop from_bytes h self [] binary"

text \<open>
  \<^verbatim>\<open>DataObjectCollection.encode\<close>. Its loop body starts with
  \<^verbatim>\<open>self.members_by_name(i[0])\<close>, a call of the dict object; a dict is not callable and
  the call raises TypeError. \<^verbatim>\<open>res.append(...)\<close> on a bytearray accepts a single
  integer and raises TypeError for the bytes that \<^verbatim>\<open>to_tlv\<close> returns. Nothing in the
  method assigns to an object.
\<close>

definition call_dict :: "('k \<rightharpoonup> 'a) \<Rightarrow> 'k \<Rightarrow> error + 'a" where
  "call_dict d k = Inl TypeError"

definition bytearray_append :: "byte list \<Rightarrow> byte list \<Rightarrow> error + byte list" where
  "bytearray_append res item = Inl TypeError"

fun DataObjectCollection_encode_loop ::
  "('v, 'z) to_bytes_method \<Rightarrow> ('v, 'z) DataObject_scheme heap \<Rightarrow> DataObjectCollection \<Rightarrow>
   byte list \<Rightarrow> (string \<times> 'v option) list \<Rightarrow>
   (('v, 'z) DataObject_scheme heap \<times> (error + byte list)) option" where
  "DataObjectCollection_encode_loop to_bytes_m h self res [] = Some (h, Inr res)"
| "DataObjectCollection_encode_loop to_bytes_m h self res (i # rest) =
     (case call_dict (members_by_name self) (fst i) of
        Inl e \<Rightarrow> Some (h, Inl e)
      | Inr obj \<Rightarrow>
          (case to_tlv to_bytes_m (h obj) of
             None \<Rightarrow> None
           | Some (Inl e) \<Rightarrow> Some (h, Inl e)
           | Some (Inr tlv) \<Rightarrow>
               (case bytearray_append res tlv of
                  Inl e \<Rightarrow> Some (h, Inl e)
                | Inr res' \<Rightarrow> DataObjectCollection_encode_loop to_bytes_m h self res' rest)))"

definition DataObjectCollection_encode ::
  "('v, 'z) to_bytes_method \<Rightarrow> ('v, 'z) DataObject_scheme heap \<Rightarrow> DataObjectCollection \<Rightarrow>
   (string \<times> 'v option) list \<Rightarrow>
   (('v, 'z) DataObject_scheme heap \<times> (error + byte list)) option" where
  "DataObjectCollection_encode to_bytes_m h self decoded_arg =
     DataObjectCollection_encode_loop to_bytes_m h self [] decoded_arg"

text \<open>\<^verbatim>\<open>DataObjectChoice.decode\<close>: the result is \<open>None\<close> on the \<open>0xff\<close> sentinel.\<close>

definition DataObjectChoice_decode ::
  "('v, 'z) from_bytes_method \<Rightarrow> ('v, 'z) DataObject_scheme heap \<Rightarrow> DataObjectCollection \<Rightarrow>
   byte list \<Rightarrow> ('v, 'z) DataObject_scheme heap \<times> (error + ('v pydict option \<times> byte list))" where
  "DataObjectChoice_decode from_bytes h self binary =
     (case binary of
        [] \<Rightarrow> (h, Inl IndexError)
      | t # _ \<Rightarrow>
          if uint t = 0xff then (h, Inr (None, binary))
          else
            (case members_by_tag self (Some (uint t)) of
               None \<Rightarrow> (h, Inl ValueError)
             | Some obj \<Rightarrow>
                 (case from_tlv from_bytes (h obj) binary of
                    (obj', Inl e) \<Rightarrow> (h(obj := obj'), Inl e)
                  | (obj', Inr remainder) \<Rightarrow>
                      (h(obj := obj'), Inr (Some (to_dict obj'), remainder)))))"















section \<open>Frame of a call on a data object\<close>





section \<open>A small grammar used in the concrete checks\<close>

text \<open>
  One \<^verbatim>\<open>TL0_DataObject('do', None, 0x30, val=1)\<close> at address 0 (and a copy of it, which
  belongs to no node, at every other address), a collection (or choice) of it, and two
  sequences, of the object and of the choice.
\<close>

definition example_do :: "nat TL0_DataObject" where
  "example_do = \<lparr>name = ''do'', desc = None, tag = Some 0x30, decoded = None, encoded = None,
                 val = Some 1\<rparr>"

definition example_heap :: "nat TL0_DataObject heap" where
  "example_heap = (\<lambda>_. example_do)"

definition example_members :: DataObjectCollection where
  "example_members = \<lparr>coll_name = None, coll_desc = None, members = [0],
                       members_by_tag = [Some 0x30 \<mapsto> 0], members_by_name = [''do'' \<mapsto> 0]\<rparr>"



section \<open>Properties of the length codec\<close>

text \<open>One step of the length accumulation, \<^verbatim>\<open>length <<= 8; length |= binary[i]\<close>, in arithmetic.\<close>

lemma push8_or: "push_bit 8 (a::int) OR uint (b::byte) = a * 256 + uint b"
proof -
  have "push_bit 8 a + uint b = push_bit 8 a OR uint b"
    by (rule disjunctive_add) (auto simp add: bit_simps dest: bit_imp_le_length)
  then show ?thesis by (simp add: push_bit_eq_mult)
qed

lemma foldl_nth_upt:
  "n \<le> length xs \<Longrightarrow> foldl (\<lambda>acc i. f acc ((y # xs) ! i)) a [1 ..< 1 + n] = foldl f a (take n xs)"
proof (induction n arbitrary: a)
  case 0 then show ?case by simp
next
  case (Suc n)
  then show ?case
    by (simp add: take_Suc_conv_app_nth)
qed

lemma be_digits_length: "length (be_digits k n) = k"
  by (induction k arbitrary: n) auto

lemma be_digits_value:
  "0 \<le> n \<Longrightarrow> n < 256 ^ k \<Longrightarrow> foldl (\<lambda>len b. push_bit 8 len OR uint b) 0 (be_digits k n) = n"
proof (induction k arbitrary: n)
  case 0 then show ?case by simp
next
  case (Suc k)
  have "n div 256 < 256 ^ k" using Suc.prems by (simp add: div_less_iff_less_mult) 
  moreover have "0 \<le> n div 256" using Suc.prems by simp
  ultimately have "foldl (\<lambda>len b. push_bit 8 len OR uint b) 0 (be_digits k (n div 256)) = n div 256"
    using Suc.IH by blast
  then show ?case
    by (simp add: push8_or uint_word_of_int take_bit_eq_mod)
qed


lemma parse_len_long:
  assumes "0x80 \<le> uint b0" and "nat (uint b0 AND 0x7f) = k" and "length xs = k"
  shows "bertlv_parse_len (b0 # xs) = Inr (foldl (\<lambda>len b. push_bit 8 len OR uint b) 0 xs, [])"
proof -
  have "foldl (\<lambda>len i. push_bit 8 len OR uint ((b0 # xs) ! i)) 0 [1 ..< 1 + k]
        = foldl (\<lambda>len b. push_bit 8 len OR uint b) 0 (take k xs)"
    using assms(3) by (intro foldl_nth_upt) simp
  then show ?thesis
    using assms by (simp add: bertlv_parse_len_def Let_def)
qed

lemma encode_len_long:
  assumes "0 \<le> n" and "n < 256 ^ k" and "0x80 \<le> uint b0" and "nat (uint b0 AND 0x7f) = k"
  shows "\<exists>bs. prepend [b0] (to_bytes n k) = Inr bs \<and> bertlv_parse_len bs = Inr (n, [])"
  using assms
  by (simp add: prepend_def to_bytes_def parse_len_long [where k = k] be_digits_length be_digits_value)

text \<open>
  C6. BER length round-trip: for every \<open>n\<close> with \<open>0 \<le> n \<le> 0xFFFFFFFF\<close>,
  \<^verbatim>\<open>bertlv_encode_len(n)\<close> returns bytes that \<^verbatim>\<open>bertlv_parse_len\<close> parses back to
  \<open>n\<close> with an empty remainder; for every \<open>n \<ge> 0x100000000\<close> the encoder raises
  ValueError ("Length > 32bits not supported") and produces no bytes.
\<close>

theorem bertlv_len_roundtrip:
  "(0 \<le> n \<and> n \<le> 0xFFFFFFFF \<longrightarrow>
      (\<exists>bs. bertlv_encode_len n = Inr bs \<and> bertlv_parse_len bs = Inr (n, [])))
   \<and> (0x100000000 \<le> n \<longrightarrow> bertlv_encode_len n = Inl ValueError)"
proof (intro conjI impI)
  assume r: "0 \<le> n \<and> n \<le> 0xFFFFFFFF"
  consider "n < 0x80" | "0x80 \<le> n" "n \<le> 0xff" | "0xff < n" "n \<le> 0xffff"
    | "0xffff < n" "n \<le> 0xffffff" | "0xffffff < n" "n \<le> 0xffffffff"
    using r by linarith
  then show "\<exists>bs. bertlv_encode_len n = Inr bs \<and> bertlv_parse_len bs = Inr (n, [])"
  proof cases
    case 1
    then have "uint (word_of_int n :: byte) = n"
      using r by (simp add: uint_word_of_int take_bit_eq_mod)
    with 1 r show ?thesis
      by (simp add: bertlv_encode_len_def to_bytes_def bertlv_parse_len_def)
  next
    case 2
    then show ?thesis
      using r encode_len_long [of n 1 "0x81"] by (simp add: bertlv_encode_len_def)
  next
    case 3
    then show ?thesis
      using r encode_len_long [of n 2 "0x82"] by (simp add: bertlv_encode_len_def)
  next
    case 4
    then show ?thesis
      using r encode_len_long [of n 3 "0x83"] by (simp add: bertlv_encode_len_def)
  next
    case 5
    then show ?thesis
      using r encode_len_long [of n 4 "0x84"] by (simp add: bertlv_encode_len_def)
  qed
next
  assume "0x100000000 \<le> n"
  then show "bertlv_encode_len n = Inl ValueError"
    by (simp add: bertlv_encode_len_def)
qed

theorem bertlv_len_roundtrip_witness:
  "bertlv_encode_len 65536 = Inr [0x83, 0x01, 0x00, 0x00]
   \<and> bertlv_parse_len [0x83, 0x01, 0x00, 0x00] = Inr (65536, [])
   \<and> bertlv_encode_len 0x100000000 = Inl ValueError"
proof -
  have e: "bertlv_encode_len 65536 = Inr [0x83, 0x01, 0x00, 0x00]"
    by (simp add: bertlv_encode_len_def to_bytes_def prepend_def numeral_3_eq_3)
  from bertlv_len_roundtrip [of 65536] e
  have "bertlv_parse_len [0x83, 0x01, 0x00, 0x00] = Inr (65536, [])" by simp
  moreover from bertlv_len_roundtrip [of "0x100000000"]
  have "bertlv_encode_len 0x100000000 = Inl ValueError" by simp
  ultimately show ?thesis using e by simp
qed

text \<open>
  C8, as the code has it. A long-form first byte that announces more length octets than
  the buffer holds makes \<^verbatim>\<open>bertlv_parse_len\<close> return the ordinary pair
  \<open>(0, b'')\<close> from its explicit guard, before any octet after the first is read. No
  error is raised, and the pair is the one a successful parse of the single byte
  \<open>0x00\<close> yields.
\<close>

theorem bertlv_parse_len_truncated:
  "0x80 \<le> uint b0 \<Longrightarrow> length rest < nat (uint b0 AND 0x7f) \<Longrightarrow>
     bertlv_parse_len (b0 # rest) = Inr (0, []) \<and> bertlv_parse_len [0x00] = Inr (0, [])"
  by (simp add: bertlv_parse_len_def Let_def)

theorem bertlv_parse_len_truncated_witness:
  "0x80 \<le> uint (0x82 :: byte) \<and> length [0x01 :: byte] < nat (uint (0x82 :: byte) AND 0x7f)
   \<and> bertlv_parse_len [0x82, 0x01] = Inr (0, [])"
  using bertlv_parse_len_truncated [of "0x82" "[0x01]"] by simp

text \<open>
  C8, as stated, fails: on the truncated buffer \<open>82 01\<close> the parser reports no error; it
  returns a normal (length, remainder) pair, equal to the result for the buffer \<open>00\<close>.
\<close>

theorem bertlv_parse_len_truncated_counterexample:
  "\<not> isl (bertlv_parse_len [0x82, 0x01])
   \<and> bertlv_parse_len [0x82, 0x01] = bertlv_parse_len [0x00]"
  by (simp add: bertlv_parse_len_def Let_def)

section \<open>Properties of the COMPREHENSION-TLV tag parsers\<close>

text \<open>
  C9. Reserved-tag rejection: \<^verbatim>\<open>comprehensiontlv_parse_tag\<close> raises ValueError on every
  non-empty buffer whose first byte is \<open>0x00\<close>, \<open>0x80\<close> or \<open>0xFF\<close>; a buffer whose first
  byte is \<open>0x01\<close> decodes to comprehension False, tag 1, and the remainder is the buffer
  without its first byte.
\<close>

theorem comprehensiontlv_parse_tag_reserved:
  "comprehensiontlv_parse_tag (0x00 # rest) = Inl ValueError
   \<and> comprehensiontlv_parse_tag (0x80 # rest) = Inl ValueError
   \<and> comprehensiontlv_parse_tag (0xff # rest) = Inl ValueError
   \<and> comprehensiontlv_parse_tag (0x01 # rest) = Inr (\<lparr>comprehension = False, comp_tag = 1\<rparr>, rest)"
  by (simp add: comprehensiontlv_parse_tag_def)

text \<open>
  C5 at the failing input. For a buffer with leading byte \<open>0xFF\<close> (alone, or followed by
  anything, \<open>0xFF\<close> included) \<^verbatim>\<open>comprehensiontlv_parse_tag_raw\<close> raises ValueError: the
  reserved-value check comes first, so the branch returning \<open>(None, binary)\<close> is never
  reached.
\<close>

theorem comprehensiontlv_parse_tag_raw_ff_raises:
  "comprehensiontlv_parse_tag_raw [0xff] = Inl ValueError
   \<and> comprehensiontlv_parse_tag_raw [0xff, 0xff] = Inl ValueError
   \<and> comprehensiontlv_parse_tag_raw (0xff # rest) = Inl ValueError"
  by (simp add: comprehensiontlv_parse_tag_raw_def)

section \<open>Properties of the BER-TLV tag codec\<close>

text \<open>
  \<^verbatim>\<open>get_top7_bits(128)\<close> returns 128 itself as the "remaining" bits, so the encoder loop
  entered with 128 comes back to 128.
\<close>

lemma get_top7_bits_128: "get_top7_bits 128 = (64, 128)"
  by code_simp

lemma bertlv_encode_tag_loop_not_128:
  assumes "bertlv_encode_tag_loop r a = Some y"
  shows "r \<noteq> 128"
proof (rule bertlv_encode_tag_loop.raw_induct [where P = "\<lambda>r a y. r \<noteq> 128", OF _ assms])
  fix f :: "int \<Rightarrow> byte list \<Rightarrow> (error + byte list) option" and remain tag_bytes y
  assume IH: "\<And>r a y. f r a = Some y \<Longrightarrow> r \<noteq> 128"
    and step: "(case get_top7_bits remain of
        (t, remain') \<Rightarrow>
          (case bytes1 (if remain' \<noteq> 0 then t OR 0x80 else t) of
             Inl e \<Rightarrow> Some (Inl e)
           | Inr b \<Rightarrow>
               if remain' = 0 then Some (Inr (tag_bytes @ b))
               else f remain' (tag_bytes @ b))) = Some y"
  show "remain \<noteq> 128"
  proof
    assume "remain = 128"
    with step have "f 128 (tag_bytes @ [word_of_int 192]) = Some y"
      by (simp add: get_top7_bits_128 bytes1_def)
    with IH show False by blast
  qed
qed

lemma bertlv_encode_tag_loop_128: "bertlv_encode_tag_loop 128 acc = None"
  using bertlv_encode_tag_loop_not_128 [of 128 acc]
  by (cases "bertlv_encode_tag_loop 128 acc") auto

text \<open>
  For tag numbers up to 127 the codec does round-trip: one leading byte for numbers up to
  30, the escape byte and a single continuation byte for 31 to 127.
\<close>

lemma or_push_bit_disjoint:
  fixes a :: int
  assumes "0 \<le> a" and "a < 2 ^ m"
  shows "a OR push_bit m b = a + push_bit m b"
proof -
  have a: "take_bit m a = a"
    using assms by (simp add: take_bit_int_eq_self)
  have "\<not> bit a n \<or> \<not> bit (push_bit m b) n" for n
  proof (cases "n < m")
    case True
    then show ?thesis by (simp add: bit_push_bit_iff)
  next
    case False
    then have "\<not> bit (take_bit m a) n" by (simp add: bit_take_bit_iff)
    then show ?thesis by (simp add: a)
  qed
  then show ?thesis
    by (simp add: disjunctive_add)
qed

lemma first_byte_value:
  fixes t0 :: int
  assumes "0 \<le> t0" "t0 \<le> 31" "0 \<le> cls" "cls \<le> 3"
  shows "(if c then t0 OR 0x20 else t0) OR push_bit 6 (cls AND 3)
         = t0 + (if c then 32 else 0) + 64 * cls"
proof -
  have k: "cls AND 3 = cls"
  proof -
    have "cls AND mask 2 = cls mod 2 ^ 2"
      by (simp flip: take_bit_eq_mask add: take_bit_eq_mod)
    then show ?thesis using assms by (simp add: mask_eq_exp_minus_1)
  qed
  have c: "t0 OR 0x20 = t0 + 32"
    using or_push_bit_disjoint [of t0 5 1] assms by simp
  have "(if c then t0 OR 0x20 else t0) = t0 + (if c then 32 else 0)"
    using c by simp
  moreover have "(t0 + (if c then 32 else 0)) OR push_bit 6 cls
                 = t0 + (if c then 32 else 0) + push_bit 6 cls"
    using assms by (intro or_push_bit_disjoint) auto
  ultimately show ?thesis
    by (simp add: k push_bit_eq_mult)
qed

lemma first_byte_parse:
  fixes t0 :: int and c :: bool
  assumes "0 \<le> t0" "t0 \<le> 31" "0 \<le> cls" "cls \<le> 3"
  defines "x \<equiv> t0 + (if c then 32 else 0) + 64 * cls"
  shows "0 \<le> x" "x < 256" "drop_bit 6 x = cls" "(x AND 0x20 \<noteq> 0) = c" "x AND 0x1f = t0"
proof -
  have t: "t0 < 32" using assms by simp
  have div32: "(t0 + 32 * k) div 32 = k" and mod32: "(t0 + 32 * k) mod 32 = t0" for k
    using assms(1) t by simp_all
  have x32: "x = t0 + 32 * ((if c then 1 else 0) + 2 * cls)"
    by (simp add: x_def)
  have lo: "0 \<le> t0 + (if c then 32 else 0)" "t0 + (if c then 32 else 0) < 64"
    using assms(1) t by auto
  show "0 \<le> x" "x < 256" using assms by (auto simp add: x_def)
  have "(t0 + (if c then 32 else 0) + 64 * cls) div 64 = cls"
    using lo by simp
  then show "drop_bit 6 x = cls"
    by (simp add: x_def drop_bit_eq_div)
  have "x AND 2 ^ 5 = 0 \<longleftrightarrow> \<not> bit x 5"
    by (rule and_exp_eq_0_iff_not_bit)
  moreover have "bit x 5 = c"
  proof -
    have "x div 32 = (if c then 1 else 0) + 2 * cls"
      unfolding x32 by (rule div32)
    then show ?thesis
      by (simp add: bit_iff_odd)
  qed
  ultimately show "(x AND 0x20 \<noteq> 0) = c" by simp
  have "x AND mask 5 = x mod 2 ^ 5"
    by (simp flip: take_bit_eq_mask add: take_bit_eq_mod)
  moreover have "x mod 32 = t0"
    unfolding x32 by (rule mod32)
  ultimately show "x AND 0x1f = t0"
    by (simp add: mask_eq_exp_minus_1)
qed


lemma bit_length_nat_le: "n < 2 ^ k \<Longrightarrow> bit_length_nat n \<le> k"
proof (induction k arbitrary: n)
  case 0
  then show ?case by (simp add: bit_length_nat.simps [of 0])
next
  case (Suc k)
  have "n div 2 < 2 ^ k" using Suc.prems by auto
  then have "bit_length_nat (n div 2) \<le> k" by (rule Suc.IH)
  then show ?case by (simp add: bit_length_nat.simps [of n])
qed

lemma get_top7_bits_small:
  assumes "0 \<le> n" and "n < 128"
  shows "get_top7_bits n = (n, 0)"
proof -
  have "nat \<bar>n\<bar> < 2 ^ 7" using assms by simp
  then have "bit_length n \<le> 7"
    unfolding bit_length_def by (rule bit_length_nat_le)
  then have "bit_length n - (if 7 \<le> bit_length n then 7 else bit_length n) = 0"
    by simp
  then show ?thesis
    by (simp add: get_top7_bits_def Let_def)
qed

lemma bertlv_encode_tag_loop_small:
  assumes "0 < n" and "n < 128"
  shows "bertlv_encode_tag_loop n acc = Some (Inr (acc @ [word_of_int n]))"
  using assms
  by (subst bertlv_encode_tag_loop.simps) (simp add: get_top7_bits_small bytes1_def)

lemma bertlv_parse_tag_loop_small:
  assumes "0 \<le> n" and "n < 128"
  shows "bertlv_parse_tag_loop 0 (word_of_int n # rest) = Inr (n, rest)"
proof -
  have u: "uint (word_of_int n :: byte) = n"
    using assms by (simp add: uint_word_of_int take_bit_eq_mod)
  have "n AND mask 7 = n mod 2 ^ 7"
    by (simp flip: take_bit_eq_mask add: take_bit_eq_mod)
  then have m: "n AND 0x7f = n"
    using assms by (simp add: mask_eq_exp_minus_1)
  have "n AND 2 ^ 7 = 0 \<longleftrightarrow> \<not> bit n 7"
    by (rule and_exp_eq_0_iff_not_bit)
  moreover have "\<not> bit n 7"
    using assms by (simp add: bit_iff_odd)
  ultimately have h: "n AND 0x80 = 0" by simp
  show ?thesis
    by (simp add: u m h)
qed

lemma bertlv_tag_roundtrip_upto_127:
  assumes cls: "0 \<le> ber_class t" "ber_class t \<le> 3" and tg: "0 \<le> ber_tag t" "ber_tag t \<le> 127"
  shows "\<exists>bs. bertlv_encode_tag t = Some (Inr bs) \<and> bertlv_parse_tag bs = Inr (t, [])"
proof (cases "ber_tag t \<le> 30")
  case True
  define x where "x = ber_tag t + (if ber_constructed t then 32 else 0) + 64 * ber_class t"
  have t5: "ber_tag t AND 0x1f = ber_tag t"
  proof -
    have "ber_tag t AND mask 5 = ber_tag t mod 2 ^ 5"
      by (simp flip: take_bit_eq_mask add: take_bit_eq_mod)
    then show ?thesis using tg True by (simp add: mask_eq_exp_minus_1)
  qed
  have le31: "ber_tag t \<le> 31" using True by simp
  have enc: "(if ber_constructed t then ber_tag t OR 0x20 else ber_tag t)
             OR push_bit 6 (ber_class t AND 3) = x"
    unfolding x_def by (rule first_byte_value [OF tg(1) le31 cls])
  note p = first_byte_parse [OF tg(1) le31 cls, of "ber_constructed t", folded x_def]
  have u: "uint (word_of_int x :: byte) = x"
    using p(1,2) by (simp add: uint_word_of_int take_bit_eq_mod)
  have "bertlv_encode_tag t = Some (bytes1 x)"
    using True unfolding bertlv_encode_tag_def Let_def t5 enc by simp
  then have e: "bertlv_encode_tag t = Some (Inr [word_of_int x])"
    using p(1,2) by (simp add: bytes1_def)
  have "bertlv_parse_tag [word_of_int x] = Inr (t, [])"
    using True by (simp add: bertlv_parse_tag_def Let_def u p)
  with e show ?thesis by simp
next
  case False
  define x where "x = 31 + (if ber_constructed t then 32 else 0) + 64 * ber_class t"
  have enc: "(if ber_constructed t then 0x1f OR 0x20 else 0x1f)
             OR push_bit 6 (ber_class t AND 3) = x"
    unfolding x_def using first_byte_value [of 31 "ber_class t" "ber_constructed t"] cls
    by simp
  note p = first_byte_parse [of 31 "ber_class t" "ber_constructed t", folded x_def, simplified, OF cls]
  have u: "uint (word_of_int x :: byte) = x"
    using p(1,2) by (simp add: uint_word_of_int take_bit_eq_mod)
  have n: "0 < ber_tag t" "ber_tag t < 128" "0 \<le> ber_tag t" using False tg by simp_all
  have "bertlv_encode_tag t =
          (case bytes1 x of Inl e \<Rightarrow> Some (Inl e)
           | Inr tag_bytes \<Rightarrow> bertlv_encode_tag_loop (ber_tag t) tag_bytes)"
    using False unfolding bertlv_encode_tag_def Let_def enc by simp
  then have e: "bertlv_encode_tag t = Some (Inr [word_of_int x, word_of_int (ber_tag t)])"
    using p(1,2) by (simp add: bytes1_def bertlv_encode_tag_loop_small [OF n(1,2)])
  have "bertlv_parse_tag [word_of_int x, word_of_int (ber_tag t)] = Inr (t, [])"
    by (simp add: bertlv_parse_tag_def Let_def u p bertlv_parse_tag_loop_small [OF n(3,2)]
        del: bertlv_parse_tag_loop.simps)
  with e show ?thesis by simp
qed

text \<open>
  C1 at the failing inputs. The tag \<open>{class 0, primitive, number 255}\<close> is encoded as
  \<open>1f ff 01\<close>, which \<^verbatim>\<open>bertlv_parse_tag\<close> reads back as number 16257, not 255; and on
  the tag \<open>{class 0, primitive, number 128}\<close> the loop of \<^verbatim>\<open>bertlv_encode_tag\<close> never
  leaves, so the encoder returns nothing.
\<close>

theorem bertlv_encode_tag_multibyte_wrong:
  "bertlv_encode_tag \<lparr>ber_class = 0, ber_constructed = False, ber_tag = 255\<rparr>
     = Some (Inr [0x1f, 0xff, 0x01])
   \<and> bertlv_parse_tag [0x1f, 0xff, 0x01]
     = Inr (\<lparr>ber_class = 0, ber_constructed = False, ber_tag = 16257\<rparr>, [])
   \<and> bertlv_encode_tag \<lparr>ber_class = 0, ber_constructed = False, ber_tag = 128\<rparr> = None"
proof (intro conjI)
  show "bertlv_encode_tag \<lparr>ber_class = 0, ber_constructed = False, ber_tag = 255\<rparr>
     = Some (Inr [0x1f, 0xff, 0x01])"
    by code_simp
  show "bertlv_parse_tag [0x1f, 0xff, 0x01]
     = Inr (\<lparr>ber_class = 0, ber_constructed = False, ber_tag = 16257\<rparr>, [])"
    by code_simp
  show "bertlv_encode_tag \<lparr>ber_class = 0, ber_constructed = False, ber_tag = 128\<rparr> = None"
    by (simp add: bertlv_encode_tag_def bytes1_def bertlv_encode_tag_loop_128)
qed

section \<open>Properties of data objects and their collections\<close>

text \<open>
  C2 at the failing input. On every non-empty list \<^verbatim>\<open>DataObjectCollection.encode\<close> raises
  TypeError in its first iteration, whether or not the names match members, and leaves the
  objects as they were; in particular for a collection with the member \<open>a\<close> and the list
  \<open>[('a', None)]\<close>.
\<close>

theorem DataObjectCollection_encode_raises:
  "DataObjectCollection_encode to_bytes_m h self (i # rest) = Some (h, Inl TypeError)
   \<and> DataObjectCollection_encode TL0_to_bytes h
        \<lparr>coll_name = None, coll_desc = None, members = [0],
         members_by_tag = [Some 0x80 \<mapsto> 0], members_by_name = [''a'' \<mapsto> 0]\<rparr>
        [(''a'', None)] = Some (h, Inl TypeError)"
  by (simp add: DataObjectCollection_encode_def call_dict_def)

text \<open>Values of 128 bytes: what \<^verbatim>\<open>to_tlv\<close> writes and what \<^verbatim>\<open>from_tlv\<close> makes of it.\<close>

lemma bertlv_encode_tag_int_0x30: "bertlv_encode_tag_int (Some 0x30) = Some (Inr [0x30])"
  by code_simp

lemma to_tlv_128:
  "tag s = Some 0x30 \<Longrightarrow>
   to_tlv (\<lambda>_. Inr (replicate 128 0)) s = Some (Inr (0x30 # 0x81 # 0x80 # replicate 128 0))"
  by (simp add: to_tlv_def bertlv_encode_tag_int_0x30 bertlv_encode_len_def to_bytes_def prepend_def)

lemma from_tlv_128:
  "tag s = Some 0x30 \<Longrightarrow>
   from_tlv from_bytes s (0x30 # 0x81 # 0x80 # replicate 128 0)
     = (case from_bytes s (0x80 # replicate 128 0) of
          (s', Some e) \<Rightarrow> (s', Inl e) | (s', None) \<Rightarrow> (s', Inr []))"
  by (simp add: from_tlv_def Let_def split: prod.splits option.splits)

text \<open>
  C3 at the failing input. \<^verbatim>\<open>from_tlv\<close> takes the byte after the tag as the length, with
  no long form. On \<open>30 81 01 aa 31 00\<close> it hands the four bytes \<open>01 aa 31 00\<close> (129
  requested, clamped) to the value codec and returns an empty remainder (or raises what
  the codec raises), where the BER length codec reads length 1 from \<open>81 01\<close> and leaves
  \<open>aa 31 00\<close>. The sibling \<^verbatim>\<open>to_tlv\<close> does write the long form: a 128-byte value is
  written as \<open>30 81 80 ...\<close>, and \<^verbatim>\<open>from_tlv\<close> passes 129 bytes of it, \<open>80\<close> first, to
  the codec.
\<close>

theorem from_tlv_long_form_length:
  "from_tlv from_bytes (self\<lparr>tag := Some 0x30\<rparr>) [0x30, 0x81, 0x01, 0xAA, 0x31, 0x00]
     = (case from_bytes (self\<lparr>tag := Some 0x30\<rparr>) [0x01, 0xAA, 0x31, 0x00] of
          (self', Some e) \<Rightarrow> (self', Inl e) | (self', None) \<Rightarrow> (self', Inr []))
   \<and> bertlv_parse_len [0x81, 0x01, 0xAA, 0x31, 0x00] = Inr (1, [0xAA, 0x31, 0x00])
   \<and> to_tlv (\<lambda>_. Inr (replicate 128 0)) (self\<lparr>tag := Some 0x30\<rparr>)
     = Some (Inr (0x30 # 0x81 # 0x80 # replicate 128 0))
   \<and> from_tlv from_bytes (self\<lparr>tag := Some 0x30\<rparr>) (0x30 # 0x81 # 0x80 # replicate 128 0)
     = (case from_bytes (self\<lparr>tag := Some 0x30\<rparr>) (0x80 # replicate 128 0) of
          (self', Some e) \<Rightarrow> (self', Inl e) | (self', None) \<Rightarrow> (self', Inr []))"
proof (intro conjI)
  show "from_tlv from_bytes (self\<lparr>tag := Some 0x30\<rparr>) [0x30, 0x81, 0x01, 0xAA, 0x31, 0x00]
     = (case from_bytes (self\<lparr>tag := Some 0x30\<rparr>) [0x01, 0xAA, 0x31, 0x00] of
          (self', Some e) \<Rightarrow> (self', Inl e) | (self', None) \<Rightarrow> (self', Inr []))"
    by (simp add: from_tlv_def Let_def split: prod.splits option.splits)
  show "bertlv_parse_len [0x81, 0x01, 0xAA, 0x31, 0x00] = Inr (1, [0xAA, 0x31, 0x00])"
    by (simp add: bertlv_parse_len_def Let_def)
  show "to_tlv (\<lambda>_. Inr (replicate 128 0)) (self\<lparr>tag := Some 0x30\<rparr>)
     = Some (Inr (0x30 # 0x81 # 0x80 # replicate 128 0))"
    by (rule to_tlv_128) simp
  show "from_tlv from_bytes (self\<lparr>tag := Some 0x30\<rparr>) (0x30 # 0x81 # 0x80 # replicate 128 0)
     = (case from_bytes (self\<lparr>tag := Some 0x30\<rparr>) (0x80 # replicate 128 0) of
          (self', Some e) \<Rightarrow> (self', Inl e) | (self', None) \<Rightarrow> (self', Inr []))"
    by (rule from_tlv_128) simp
qed

text \<open>
  C10. Constructing a \<^verbatim>\<open>DataObjectCollection\<close>, and hence a \<^verbatim>\<open>DataObjectChoice\<close>, with
  the members argument left at its default \<open>None\<close> always raises TypeError, whatever the
  name and description: no empty collection is produced.
\<close>

theorem DataObjectCollection_init_no_members:
  "DataObjectCollection_init h nm ds None = Inl TypeError
   \<and> DataObjectChoice_init h nm ds None = Inl TypeError"
  by (simp add: DataObjectCollection_init_def DataObjectChoice_init_def)

text \<open>
  C7. Sentinel termination: on every non-empty buffer whose first byte is \<open>0xFF\<close>, for
  every collection and every value codec, \<^verbatim>\<open>DataObjectCollection.decode\<close> returns the
  empty result list and \<^verbatim>\<open>DataObjectChoice.decode\<close> returns \<open>None\<close>, both with the whole
  input as remainder and the objects untouched; neither raises.
\<close>

theorem sentinel_termination:
  "binary \<noteq> [] \<Longrightarrow> uint (hd binary) = 0xff \<Longrightarrow>
     DataObjectCollection_decode from_bytes h self binary = (h, Inr ([], binary))
     \<and> DataObjectChoice_decode from_bytes h self binary = (h, Inr (None, binary))"
  by (cases binary)
     (simp_all add: DataObjectCollection_decode_def DataObjectCollection_decode_loop.simps
        DataObjectChoice_decode_def)

theorem sentinel_termination_witness:
  "[0xff, 0x01 :: byte] \<noteq> [] \<and> uint (hd [0xff, 0x01 :: byte]) = 0xff
   \<and> DataObjectCollection_decode TL0_from_bytes example_heap example_members [0xff, 0x01]
       = (example_heap, Inr ([], [0xff, 0x01]))
   \<and> DataObjectChoice_decode TL0_from_bytes example_heap example_members [0xff, 0x01]
       = (example_heap, Inr (None, [0xff, 0x01]))"
  using sentinel_termination [of "[0xff, 0x01]" TL0_from_bytes example_heap example_members]
  by simp

section \<open>What a decode or encode call changes in the grammar nodes\<close>








































lemma example_init:
  "DataObjectCollection_init example_heap None None (Some [0]) = Inr example_members"
  by (simp add: DataObjectCollection_init_def example_members_def example_heap_def example_do_def)
















end
